theory Spec2Isabelle
  imports Complex_Main "HOL-Library.Multiset"
begin

section \<open>Values, effects and errors\<close>

text \<open>
  The script \<^verbatim>\<open>model_train.py\<close> trains a small convolutional network and logs to an
  experiment tracker. Python floats and tensor entries are modelled by the real numbers
  they approximate (rounding is outside the model); Python integers are \<open>int\<close>.
  A statement either completes in a state or raises in a state.
\<close>

datatype error = ZeroDivisionError | RuntimeError | IndexError | ValueError

datatype 's outcome = Returns 's | Raises error 's

datatype device = Cuda | Mps | Cpu

text \<open>
  A formatted string is kept as its pieces: \<open>Fixed d v\<close> stands for
  \<^verbatim>\<open>f'{v:.<d>f}'\<close>, \<open>Num i\<close> for an integer printed in decimal.
\<close>

datatype piece = Lit string | Num int | Fixed nat real

datatype pvalue = PInt int | PFloat real | PStr string

datatype run_status = FINISHED | FAILED

text \<open>
  The effects of the script on the tracking run and on the console, in the order in
  which they happen. \<open>Log_metric key value step\<close> is
  \<^verbatim>\<open>mlflow.log_metric(key, value, step=step)\<close>; the step is \<open>None\<close> when the call
  passes none.
\<close>

datatype event =
    Start_run
  | Log_params "(string \<times> pvalue) list"
  | Write_file string string
  | Log_artifact string
  | Log_metric string piece "int option"
  | Print "piece list"
  | End_run run_status

text \<open>
  The mutable state: the parameters and the mode flag of the model, the stored
  gradients, the optimizer's own state, the global gradient-tracking flag, the random
  number generator and the trace of effects.
\<close>

record ('p, 'g, 'o, 'r) state =
  params :: 'p
  training :: bool
  grads :: 'g
  opt_state :: 'o
  grad_enabled :: bool
  rng :: 'r
  trace :: "event list"

text \<open>
  The objects \<^verbatim>\<open>train\<close> and \<^verbatim>\<open>test\<close> receive. A module is called with the current
  parameters, the mode flag, the gradient-tracking flag and a batch of examples; it
  returns one row of scores per example, or raises. The forward pass only reads the
  module: \<^verbatim>\<open>CNNModel.forward\<close> assigns to no attribute.
\<close>

type_synonym ('p, 'x) module = "'p \<Rightarrow> bool \<Rightarrow> bool \<Rightarrow> 'x list \<Rightarrow> error + real list list"

record loss_module =
  class_name :: string
  call_loss :: "real list list \<Rightarrow> int list \<Rightarrow> error + real"

record ('p, 'g, 'o) optimizer =
  zero_grad :: "'g \<Rightarrow> 'g"
  step :: "'p \<Rightarrow> 'g \<Rightarrow> 'o \<Rightarrow> 'p \<times> 'o"

text \<open>
  \<^verbatim>\<open>loss.backward()\<close>: the autograd engine, which from the parameters, the mode and
  the batch adds the gradient of the loss to the stored gradients.
\<close>

type_synonym ('p, 'g, 'x) autograd = "'p \<Rightarrow> bool \<Rightarrow> 'x list \<Rightarrow> int list \<Rightarrow> 'g \<Rightarrow> 'g"

section \<open>Data loaders\<close>

text \<open>
  A \<^verbatim>\<open>DataLoader\<close> over a \<^verbatim>\<open>TensorDataset\<close> of (image, label) pairs. Its sampler
  yields the index order of one pass: \<^verbatim>\<open>SequentialSampler\<close> when \<^verbatim>\<open>shuffle=False\<close>,
  otherwise a sampler that draws from the random number generator.
\<close>

record ('x, 'r) loader =
  dataset :: "('x \<times> int) list"
  batch_size :: nat
  sampler :: "'r \<Rightarrow> nat \<Rightarrow> nat list \<times> 'r"

definition SequentialSampler :: "'r \<Rightarrow> nat \<Rightarrow> nat list \<times> 'r" where
  "SequentialSampler r n = ([0..<n], r)"

definition DataLoader ::
  "('r \<Rightarrow> nat \<Rightarrow> nat list \<times> 'r) \<Rightarrow> ('x \<times> int) list \<Rightarrow> nat \<Rightarrow> bool \<Rightarrow> error + ('x, 'r) loader" where
  "DataLoader RandomSampler ds bs shuffle =
     (if bs = 0 then Inl ValueError
      else Inr \<lparr>dataset = ds, batch_size = bs,
                sampler = (if shuffle then RandomSampler else SequentialSampler)\<rparr>)"

function chunks :: "nat \<Rightarrow> 'a list \<Rightarrow> 'a list list" where
  "chunks n xs = (if n = 0 \<or> xs = [] then [] else take n xs # chunks n (drop n xs))"
  by pat_completeness auto
termination
  by (relation "measure (\<lambda>(n, xs). length xs)") auto

declare chunks.simps [simp del]

text \<open>
  The constructor refuses a batch size of 0, so no loader has one; \<open>chunks 0\<close> is the
  empty list only because the function has to be total.
\<close>

text \<open>\<^verbatim>\<open>len(loader.dataset)\<close> and \<^verbatim>\<open>len(loader)\<close> (the number of batches, the last one
  possibly short).\<close>

definition len_dataset :: "('x, 'r) loader \<Rightarrow> nat" where
  "len_dataset ld = length (dataset ld)"

definition len_loader :: "('x, 'r) loader \<Rightarrow> nat" where
  "len_loader ld = (length (dataset ld) + batch_size ld - 1) div batch_size ld"

text \<open>Starting a pass draws the index order once and cuts it into batches of indices.\<close>

definition iter_loader :: "('x, 'r) loader \<Rightarrow> 'r \<Rightarrow> nat list list \<times> 'r" where
  "iter_loader ld r =
     (case sampler ld r (length (dataset ld)) of
        (idxs, r') \<Rightarrow> (chunks (batch_size ld) idxs, r'))"

text \<open>One batch is fetched when the loop asks for it; an index outside the dataset raises.\<close>

definition fetch :: "('x \<times> int) list \<Rightarrow> nat list \<Rightarrow> error + ('x list \<times> int list)" where
  "fetch ds idxs =
     (if list_all (\<lambda>i. i < length ds) idxs
      then Inr (map (\<lambda>i. fst (ds ! i)) idxs, map (\<lambda>i. snd (ds ! i)) idxs)
      else Inl IndexError)"

definition to :: "'a \<Rightarrow> device \<Rightarrow> 'a" where
  "to x d = x"

section \<open>Counting correct predictions\<close>

text \<open>
  \<^verbatim>\<open>output.argmax(dim=1, keepdim=True)\<close>: per row the index of the first maximal
  entry; a row without entries raises. \<^verbatim>\<open>target.view_as(pred)\<close> raises when the
  numbers of rows and of labels differ.
\<close>

fun argmax_from :: "real list \<Rightarrow> nat \<Rightarrow> real \<Rightarrow> nat \<Rightarrow> nat" where
  "argmax_from [] i best besti = besti"
| "argmax_from (x # xs) i best besti =
     (if best < x then argmax_from xs (Suc i) x i else argmax_from xs (Suc i) best besti)"

definition argmax :: "real list \<Rightarrow> error + nat" where
  "argmax row = (case row of [] \<Rightarrow> Inl IndexError | x # xs \<Rightarrow> Inr (argmax_from xs 1 x 0))"

fun argmax_dim1 :: "real list list \<Rightarrow> error + nat list" where
  "argmax_dim1 [] = Inr []"
| "argmax_dim1 (row # rows) =
     (case argmax row of
        Inl e \<Rightarrow> Inl e
      | Inr p \<Rightarrow> (case argmax_dim1 rows of Inl e \<Rightarrow> Inl e | Inr ps \<Rightarrow> Inr (p # ps)))"

definition count_correct :: "real list list \<Rightarrow> int list \<Rightarrow> error + int" where
  "count_correct output target =
     (case argmax_dim1 output of
        Inl e \<Rightarrow> Inl e
      | Inr pred \<Rightarrow>
          if length target \<noteq> length pred then Inl RuntimeError
          else Inr (int (length (filter (\<lambda>(p, t). int p = t) (zip pred target)))))"

section \<open>The evaluation step\<close>

text \<open>
  The loop of \<^verbatim>\<open>test\<close> (lines 58 to 63) over the batches of indices, with the local
  variables \<^verbatim>\<open>test_loss\<close> and \<^verbatim>\<open>correct\<close>. It reads the state and assigns only to
  the two locals.
\<close>

fun test_loop ::
  "('p, 'x) module \<Rightarrow> device \<Rightarrow> loss_module \<Rightarrow> ('x \<times> int) list \<Rightarrow> ('p, 'g, 'o, 'r) state \<Rightarrow>
     nat list list \<Rightarrow> real \<times> int \<Rightarrow> error + real \<times> int" where
  "test_loop model dev loss_fn ds s [] acc = Inr acc"
| "test_loop model dev loss_fn ds s (idxs # rest) acc =
     (case fetch ds idxs of
        Inl e \<Rightarrow> Inl e
      | Inr (data, target) \<Rightarrow>
          (case model (params s) (training s) (grad_enabled s) (to data dev) of
             Inl e \<Rightarrow> Inl e
           | Inr output \<Rightarrow>
               (case call_loss loss_fn output (to target dev) of
                  Inl e \<Rightarrow> Inl e
                | Inr l \<Rightarrow>
                    (case count_correct output (to target dev) of
                       Inl e \<Rightarrow> Inl e
                     | Inr c \<Rightarrow>
                         test_loop model dev loss_fn ds s rest (fst acc + l, snd acc + c)))))"

definition nl :: string where
  "nl = [CHR 0x0A]"

definition tab :: string where
  "tab = [CHR 0x09]"

definition test_summary :: "real \<Rightarrow> int \<Rightarrow> nat \<Rightarrow> event" where
  "test_summary test_loss correct n =
     Print [Lit (nl @ ''Test set: Average loss: ''), Fixed 4 test_loss,
            Lit '', Accuracy: '', Num correct, Lit ''/'', Num (int n),
            Lit '' ('', Fixed 0 (100 * real_of_int correct / real n), Lit (''%)'' @ nl)]"

text \<open>
  \<^verbatim>\<open>test(model, device, loss_fn, test_loader)\<close>, lines 53 to 71. \<^verbatim>\<open>model.eval()\<close>
  clears the mode flag; the \<^verbatim>\<open>with torch.no_grad()\<close> block turns gradient tracking
  off and puts the previous setting back when it is left, also by an exception. The
  two divisions by \<^verbatim>\<open>len(test_loader.dataset)\<close> raise on an empty dataset.
\<close>

definition test ::
  "('p, 'x) module \<Rightarrow> device \<Rightarrow> loss_module \<Rightarrow> ('x, 'r) loader \<Rightarrow> ('p, 'g, 'o, 'r) state \<Rightarrow>
     ('p, 'g, 'o, 'r) state outcome" where
  "test model dev loss_fn test_loader s =
     (let s1 = s\<lparr>training := False\<rparr>;
          prev = grad_enabled s1;
          s2 = s1\<lparr>grad_enabled := False\<rparr>
      in case iter_loader test_loader (rng s2) of
           (batches, r) \<Rightarrow>
             (let s3 = s2\<lparr>rng := r\<rparr> in
              case test_loop model dev loss_fn (dataset test_loader) s3 batches (0, 0) of
                Inl e \<Rightarrow> Raises e (s3\<lparr>grad_enabled := prev\<rparr>)
              | Inr (test_loss, correct) \<Rightarrow>
                  (let s4 = s3\<lparr>grad_enabled := prev\<rparr>;
                       n = len_dataset test_loader
                   in if n = 0 then Raises ZeroDivisionError s4
                      else
                        (let test_loss' = test_loss / real n;
                             test_acc = real_of_int correct / real n
                         in Returns (s4\<lparr>trace := trace s4 @
                              [Log_metric ''test_loss'' (Fixed 4 test_loss') None,
                               Log_metric ''test_accuracy'' (Fixed 4 test_acc) None,
                               test_summary test_loss' correct n]\<rparr>)))))"

section \<open>What the evaluation step computes\<close>

text \<open>
  One pass of the body of the evaluation loop on a batch of indices, as a value: the
  loss of the batch and its number of correct predictions, for a model called with
  parameters \<open>p\<close>, mode flag \<open>tr\<close> and gradient-tracking flag \<open>ge\<close>.
\<close>

definition batch_result ::
  "('p, 'x) module \<Rightarrow> device \<Rightarrow> loss_module \<Rightarrow> ('x \<times> int) list \<Rightarrow> 'p \<Rightarrow> bool \<Rightarrow> bool \<Rightarrow>
     nat list \<Rightarrow> error + real \<times> int" where
  "batch_result model dev loss_fn ds p tr ge idxs =
     (case fetch ds idxs of
        Inl e \<Rightarrow> Inl e
      | Inr (data, target) \<Rightarrow>
          (case model p tr ge data of
             Inl e \<Rightarrow> Inl e
           | Inr output \<Rightarrow>
               (case call_loss loss_fn output target of
                  Inl e \<Rightarrow> Inl e
                | Inr l \<Rightarrow>
                    (case count_correct output target of
                       Inl e \<Rightarrow> Inl e
                     | Inr c \<Rightarrow> Inr (l, c)))))"

text \<open>The state reached by a statement, however it ends.\<close>

fun final :: "'s outcome \<Rightarrow> 's" where
  "final (Returns s) = s"
| "final (Raises e s) = s"

section \<open>The training step\<close>

text \<open>
  The local variables of \<^verbatim>\<open>train\<close> that live across iterations: the running count
  \<^verbatim>\<open>correct\<close> and \<^verbatim>\<open>train_acc\<close>, which is unbound before the first iteration.
\<close>

record train_locals =
  correct :: int
  train_acc :: "real option"

definition train_progress :: "int \<Rightarrow> int \<Rightarrow> nat \<Rightarrow> nat \<Rightarrow> nat \<Rightarrow> real \<Rightarrow> event" where
  "train_progress epoch batch_idx len_data n n_batches loss =
     Print [Lit ''Train Epoch: '', Num epoch, Lit '' ['', Num (batch_idx * int len_data),
            Lit ''/'', Num (int n), Lit '' ('',
            Fixed 0 (100 * real_of_int batch_idx / real n_batches),
            Lit (''%)]'' @ tab @ ''Loss: ''), Fixed 6 loss]"

text \<open>
  One iteration of the loop of \<^verbatim>\<open>train\<close>, lines 35 to 51, on the batch of indices the
  loader hands out and with \<^verbatim>\<open>batch_idx\<close> from \<^verbatim>\<open>enumerate\<close>. In source order:
  the batch is fetched, the gradients are reset, the model and the loss are called,
  \<^verbatim>\<open>loss.backward()\<close> raises when the loss was computed without gradient tracking,
  the optimizer updates the parameters, the correct predictions of the batch are
  added to \<^verbatim>\<open>correct\<close>, \<^verbatim>\<open>train_acc\<close> is \<^verbatim>\<open>correct\<close> over the size of the dataset,
  and when \<^verbatim>\<open>batch_idx % 100 == 0\<close> the two metrics are logged with
  \<^verbatim>\<open>step = batch_idx // 100 * (epoch+1)\<close> and the progress line is printed.
\<close>

definition train_body ::
  "('p, 'g, 'x) autograd \<Rightarrow> ('p, 'x) module \<Rightarrow> device \<Rightarrow> loss_module \<Rightarrow> ('x, 'r) loader \<Rightarrow>
     ('p, 'g, 'o) optimizer \<Rightarrow> int \<Rightarrow> int \<Rightarrow> nat list \<Rightarrow>
     ('p, 'g, 'o, 'r) state \<times> train_locals \<Rightarrow> (('p, 'g, 'o, 'r) state \<times> train_locals) outcome" where
  "train_body backward model dev loss_fn train_loader optimizer epoch batch_idx idxs sl =
     (case sl of (s, L) \<Rightarrow>
      case fetch (dataset train_loader) idxs of
        Inl e \<Rightarrow> Raises e (s, L)
      | Inr (data, target) \<Rightarrow>
          (let s1 = s\<lparr>grads := zero_grad optimizer (grads s)\<rparr> in
           case model (params s1) (training s1) (grad_enabled s1) (to data dev) of
             Inl e \<Rightarrow> Raises e (s1, L)
           | Inr output \<Rightarrow>
               (case call_loss loss_fn output (to target dev) of
                  Inl e \<Rightarrow> Raises e (s1, L)
                | Inr loss \<Rightarrow>
                    if \<not> grad_enabled s1 then Raises RuntimeError (s1, L)
                    else
                      (let s2 = s1\<lparr>grads := backward (params s1) (training s1)
                                            (to data dev) (to target dev) (grads s1)\<rparr>;
                           po = step optimizer (params s2) (grads s2) (opt_state s2);
                           s3 = s2\<lparr>params := fst po, opt_state := snd po\<rparr>
                       in case count_correct output (to target dev) of
                            Inl e \<Rightarrow> Raises e (s3, L)
                          | Inr c \<Rightarrow>
                              (let L1 = L\<lparr>correct := correct L + c\<rparr>;
                                   n = len_dataset train_loader
                               in if n = 0 then Raises ZeroDivisionError (s3, L1)
                                  else
                                    (let acc = real_of_int (correct L1) / real n;
                                         L2 = L1\<lparr>train_acc := Some acc\<rparr>
                                     in if batch_idx mod 100 = 0 then
                                          (let stp = batch_idx div 100 * (epoch + 1);
                                               s4 = s3\<lparr>trace := trace s3 @
                                                 [Log_metric ''loss'' (Fixed 4 loss) (Some stp),
                                                  Log_metric ''accuracy'' (Fixed 4 acc) (Some stp)]\<rparr>
                                           in if len_loader train_loader = 0
                                              then Raises ZeroDivisionError (s4, L2)
                                              else Returns (s4\<lparr>trace := trace s4 @
                                                [train_progress epoch batch_idx (length data) n
                                                   (len_loader train_loader) loss]\<rparr>, L2))
                                        else Returns (s3, L2)))))))"

fun train_loop ::
  "('p, 'g, 'x) autograd \<Rightarrow> ('p, 'x) module \<Rightarrow> device \<Rightarrow> loss_module \<Rightarrow> ('x, 'r) loader \<Rightarrow>
     ('p, 'g, 'o) optimizer \<Rightarrow> int \<Rightarrow> nat list list \<Rightarrow> int \<Rightarrow>
     ('p, 'g, 'o, 'r) state \<times> train_locals \<Rightarrow> (('p, 'g, 'o, 'r) state \<times> train_locals) outcome" where
  "train_loop backward model dev loss_fn train_loader optimizer epoch [] batch_idx sl = Returns sl"
| "train_loop backward model dev loss_fn train_loader optimizer epoch (idxs # rest) batch_idx sl =
     (case train_body backward model dev loss_fn train_loader optimizer epoch batch_idx idxs sl of
        Raises e sl' \<Rightarrow> Raises e sl'
      | Returns sl' \<Rightarrow>
          train_loop backward model dev loss_fn train_loader optimizer epoch rest (batch_idx + 1) sl')"

text \<open>
  \<^verbatim>\<open>train(model, device, loss_fn, train_loader, optimizer, epoch)\<close>, lines 31 to 51:
  \<^verbatim>\<open>model.train()\<close> sets the mode flag, \<^verbatim>\<open>correct\<close> starts at 0, and the loop runs
  over the batches of one pass of the loader. The function returns nothing; its
  locals are dropped.
\<close>

definition train_start ::
  "('x, 'r) loader \<Rightarrow> ('p, 'g, 'o, 'r) state \<Rightarrow> ('p, 'g, 'o, 'r) state \<times> train_locals" where
  "train_start train_loader s =
     (s\<lparr>training := True, rng := snd (iter_loader train_loader (rng s))\<rparr>,
      \<lparr>correct = 0, train_acc = None\<rparr>)"

definition train ::
  "('p, 'g, 'x) autograd \<Rightarrow> ('p, 'x) module \<Rightarrow> device \<Rightarrow> loss_module \<Rightarrow> ('x, 'r) loader \<Rightarrow>
     ('p, 'g, 'o) optimizer \<Rightarrow> int \<Rightarrow> ('p, 'g, 'o, 'r) state \<Rightarrow> ('p, 'g, 'o, 'r) state outcome" where
  "train backward model dev loss_fn train_loader optimizer epoch s =
     (case train_loop backward model dev loss_fn train_loader optimizer epoch
             (fst (iter_loader train_loader (rng s))) 0 (train_start train_loader s) of
        Raises e sl \<Rightarrow> Raises e (fst sl)
      | Returns sl \<Rightarrow> Returns (fst sl))"

section \<open>The run\<close>

text \<open>
  The \<^verbatim>\<open>with mlflow.start_run()\<close> block of \<^verbatim>\<open>main\<close>, lines 119 to 142, over the
  objects \<^verbatim>\<open>main\<close> has built before it: the hyperparameters are logged, the model
  summary is written and logged as an artifact, then for \<^verbatim>\<open>epoch\<close> in
  \<^verbatim>\<open>range(1, epochs+1)\<close> the training step and the evaluation step run, and one more
  evaluation step follows the loop. Leaving the block ends the run, as failed when an
  exception leaves it. \<open>summary\<close> is \<^verbatim>\<open>str(torchinfo.summary(model))\<close>.
\<close>

definition epochs :: int where
  "epochs = 10"

definition hyperparameters :: "loss_module \<Rightarrow> (string \<times> pvalue) list" where
  "hyperparameters loss_fn =
     [(''epochs'', PInt epochs),
      (''learning_rate'', PFloat (1 / 1000)),
      (''train: batch_size'', PInt 64),
      (''test: batch_size'', PInt 1000),
      (''loss_function'', PStr (class_name loss_fn)),
      (''metric_function'', PStr ''Accuracy''),
      (''optimizer'', PStr ''Adam'')]"

fun epoch_loop ::
  "('p, 'g, 'x) autograd \<Rightarrow> ('p, 'x) module \<Rightarrow> device \<Rightarrow> loss_module \<Rightarrow> ('x, 'r) loader \<Rightarrow>
     ('x, 'r) loader \<Rightarrow> ('p, 'g, 'o) optimizer \<Rightarrow> int list \<Rightarrow> ('p, 'g, 'o, 'r) state \<Rightarrow>
     ('p, 'g, 'o, 'r) state outcome" where
  "epoch_loop backward model dev loss_fn train_loader test_loader optimizer [] s = Returns s"
| "epoch_loop backward model dev loss_fn train_loader test_loader optimizer (epoch # rest) s =
     (case train backward model dev loss_fn train_loader optimizer epoch s of
        Raises e s' \<Rightarrow> Raises e s'
      | Returns s1 \<Rightarrow>
          (case test model dev loss_fn test_loader s1 of
             Raises e s' \<Rightarrow> Raises e s'
           | Returns s2 \<Rightarrow>
               epoch_loop backward model dev loss_fn train_loader test_loader optimizer rest s2))"

definition run_body ::
  "('p \<Rightarrow> string) \<Rightarrow> ('p, 'g, 'x) autograd \<Rightarrow> ('p, 'x) module \<Rightarrow> device \<Rightarrow> loss_module \<Rightarrow>
     ('x, 'r) loader \<Rightarrow> ('x, 'r) loader \<Rightarrow> ('p, 'g, 'o) optimizer \<Rightarrow> ('p, 'g, 'o, 'r) state \<Rightarrow>
     ('p, 'g, 'o, 'r) state outcome" where
  "run_body summary backward model dev loss_fn train_loader test_loader optimizer s =
     (let s1 = s\<lparr>trace := trace s @
                  [Log_params (hyperparameters loss_fn),
                   Write_file ''model_summary.txt'' (summary (params s)),
                   Log_artifact ''model_summary.txt'']\<rparr>
      in case epoch_loop backward model dev loss_fn train_loader test_loader optimizer
                [1..epochs] s1 of
           Raises e s' \<Rightarrow> Raises e s'
         | Returns s2 \<Rightarrow> test model dev loss_fn test_loader s2)"

definition main_run ::
  "('p \<Rightarrow> string) \<Rightarrow> ('p, 'g, 'x) autograd \<Rightarrow> ('p, 'x) module \<Rightarrow> device \<Rightarrow> loss_module \<Rightarrow>
     ('x, 'r) loader \<Rightarrow> ('x, 'r) loader \<Rightarrow> ('p, 'g, 'o) optimizer \<Rightarrow> ('p, 'g, 'o, 'r) state \<Rightarrow>
     ('p, 'g, 'o, 'r) state outcome" where
  "main_run summary backward model dev loss_fn train_loader test_loader optimizer s =
     (case run_body summary backward model dev loss_fn train_loader test_loader optimizer
             (s\<lparr>trace := trace s @ [Start_run]\<rparr>) of
        Raises e s' \<Rightarrow> Raises e (s'\<lparr>trace := trace s' @ [End_run FAILED]\<rparr>)
      | Returns s' \<Rightarrow> Returns (s'\<lparr>trace := trace s' @ [End_run FINISHED]\<rparr>))"

section \<open>Reading the trace\<close>

text \<open>
  What kind of record an event is, without its measured values: a stepped or
  unstepped metric under a key, the progress line of an epoch, the summary line of an
  evaluation, or something else.
\<close>

datatype kind = K_metric string "int option" | K_progress int | K_summary | K_other

fun kind_of :: "event \<Rightarrow> kind" where
  "kind_of (Log_metric k v st) = K_metric k st"
| "kind_of (Print (Lit h # Num e # ps)) = (if h = ''Train Epoch: '' then K_progress e else K_other)"
| "kind_of (Print (Lit h # Fixed d v # ps)) =
     (if h = nl @ ''Test set: Average loss: '' then K_summary else K_other)"
| "kind_of _ = K_other"

text \<open>The records one training iteration with index \<open>i\<close> leaves in epoch \<open>epoch\<close>.\<close>

definition marks :: "int \<Rightarrow> int \<Rightarrow> kind list" where
  "marks epoch i =
     (if i mod 100 = 0
      then [K_metric ''loss'' (Some (i div 100 * (epoch + 1))),
            K_metric ''accuracy'' (Some (i div 100 * (epoch + 1))),
            K_progress epoch]
      else [])"

text \<open>The events of one iteration.\<close>

definition body_events :: "int \<Rightarrow> int \<Rightarrow> nat \<Rightarrow> nat \<Rightarrow> nat \<Rightarrow> real \<Rightarrow> real \<Rightarrow> event list" where
  "body_events epoch i len_data n n_batches loss acc =
     (if i mod 100 = 0
      then [Log_metric ''loss'' (Fixed 4 loss) (Some (i div 100 * (epoch + 1))),
            Log_metric ''accuracy'' (Fixed 4 acc) (Some (i div 100 * (epoch + 1))),
            train_progress epoch i len_data n n_batches loss]
      else [])"

text \<open>The step index of an event, when it is a metric logged with one.\<close>

fun metric_step :: "event \<Rightarrow> int list" where
  "metric_step (Log_metric k v (Some st)) = [st]"
| "metric_step _ = []"

text \<open>
  The loop of \<^verbatim>\<open>train\<close> stopped after its first \<open>k\<close> iterations: the state and the
  locals at that point, and the values of \<^verbatim>\<open>correct\<close> and \<^verbatim>\<open>train_acc\<close> then.
\<close>

definition after_batches ::
  "('p, 'g, 'x) autograd \<Rightarrow> ('p, 'x) module \<Rightarrow> device \<Rightarrow> loss_module \<Rightarrow> ('x, 'r) loader \<Rightarrow>
     ('p, 'g, 'o) optimizer \<Rightarrow> int \<Rightarrow> ('p, 'g, 'o, 'r) state \<Rightarrow> nat \<Rightarrow>
     (('p, 'g, 'o, 'r) state \<times> train_locals) outcome" where
  "after_batches backward model dev loss_fn train_loader optimizer epoch s k =
     train_loop backward model dev loss_fn train_loader optimizer epoch
       (take k (fst (iter_loader train_loader (rng s)))) 0 (train_start train_loader s)"



text \<open>The summary lines of evaluation steps among some events.\<close>

definition summaries :: "event list \<Rightarrow> event list" where
  "summaries evs = filter (\<lambda>e. kind_of e = K_summary) evs"

section \<open>The model\<close>


record tensor2 =
  rows :: nat
  cols :: nat
  at2 :: "nat \<Rightarrow> nat \<Rightarrow> real"















section \<open>A small concrete run\<close>

text \<open>
  A model with one real parameter that scores an example \<open>x\<close> as \<open>[p * x, 1 - x]\<close>, a
  model that refuses to run unless it is in evaluation mode with gradient tracking
  off, a loss that returns the number of rows, and a test set of three examples in
  batches of two.
\<close>

definition toy_model :: "(real, real) module" where
  "toy_model p tr ge xs = Inr (map (\<lambda>x. [p * x, 1 - x]) xs)"

definition strict_model :: "(real, real) module" where
  "strict_model p tr ge xs = (if tr \<or> ge then Inl RuntimeError else toy_model p tr ge xs)"

definition toy_loss :: loss_module where
  "toy_loss = \<lparr>class_name = ''CountLoss'', call_loss = (\<lambda>output target. Inr (real (length output)))\<rparr>"

definition toy_test_loader :: "(real, nat) loader" where
  "toy_test_loader = \<lparr>dataset = [(1/5, 1), (9/10, 0), (3/10, 0)], batch_size = 2,
                        sampler = SequentialSampler\<rparr>"

definition toy_state :: "(real, real, nat, nat) state" where
  "toy_state = \<lparr>params = 1, training = True, grads = 0, opt_state = 0,
                 grad_enabled = True, rng = 0, trace = []\<rparr>"

text \<open>
  For training: a sampler that hands out the indices in reverse order and advances
  the generator, batches of one example, an autograd engine that adds a tenth per
  example to the stored gradient, and an optimizer that adds the gradient to the
  parameter and counts its steps.
\<close>

definition toy_sampler :: "nat \<Rightarrow> nat \<Rightarrow> nat list \<times> nat" where
  "toy_sampler r n = (rev [0..<n], Suc r)"

definition toy_train_loader :: "(real, nat) loader" where
  "toy_train_loader = \<lparr>dataset = [(1/5, 0), (3/10, 0), (9/10, 0)], batch_size = 1,
                         sampler = toy_sampler\<rparr>"

definition toy_backward :: "(real, real, real) autograd" where
  "toy_backward p tr xs ts g = g + real (length xs) / 10"

definition toy_optimizer :: "(real, real, nat) optimizer" where
  "toy_optimizer = \<lparr>zero_grad = (\<lambda>g. 0), step = (\<lambda>p g k. (p + g, Suc k))\<rparr>"

definition toy_summary :: "real \<Rightarrow> string" where
  "toy_summary p = ''CNNModel''"

text \<open>A training set of 201 examples in batches of one, handed out in order.\<close>

definition long_loader :: "(real, nat) loader" where
  "long_loader = \<lparr>dataset = replicate 201 (1/5, 0), batch_size = 1, sampler = SequentialSampler\<rparr>"

section \<open>Properties of the evaluation step\<close>

lemma test_loop_step:
  "test_loop model dev loss_fn ds s (b # bs) acc =
     (case batch_result model dev loss_fn ds (params s) (training s) (grad_enabled s) b of
        Inl e \<Rightarrow> Inl e
      | Inr lc \<Rightarrow> test_loop model dev loss_fn ds s bs (fst acc + fst lc, snd acc + snd lc))"
  by (auto simp: batch_result_def to_def split: sum.splits prod.splits)

lemma test_loop_Inr:
  "test_loop model dev loss_fn ds s bs acc = Inr r \<Longrightarrow>
     \<exists>rs. map (batch_result model dev loss_fn ds (params s) (training s) (grad_enabled s)) bs = map Inr rs
        \<and> r = (fst acc + sum_list (map fst rs), snd acc + sum_list (map snd rs))"
proof (induction bs arbitrary: acc)
  case Nil
  then show ?case by auto
next
  case (Cons b bs)
  from Cons.prems obtain lc where
    lc: "batch_result model dev loss_fn ds (params s) (training s) (grad_enabled s) b = Inr lc"
    and rest: "test_loop model dev loss_fn ds s bs (fst acc + fst lc, snd acc + snd lc) = Inr r"
    by (auto simp: test_loop_step simp del: test_loop.simps split: sum.splits)
  from Cons.IH [OF rest] obtain rs where
    rs: "map (batch_result model dev loss_fn ds (params s) (training s) (grad_enabled s)) bs = map Inr rs"
    and r: "r = (fst acc + fst lc + sum_list (map fst rs), snd acc + snd lc + sum_list (map snd rs))"
    by auto
  show ?case
    by (rule exI [of _ "lc # rs"]) (simp add: lc rs r algebra_simps)
qed

lemma test_loop_total:
  "map (batch_result model dev loss_fn ds (params s) (training s) (grad_enabled s)) bs = map Inr rs \<Longrightarrow>
   test_loop model dev loss_fn ds s bs acc =
     Inr (fst acc + sum_list (map fst rs), snd acc + sum_list (map snd rs))"
proof (induction bs arbitrary: acc rs)
  case Nil
  then show ?case by auto
next
  case (Cons b bs)
  then obtain lc rs' where rs: "rs = lc # rs'" 
    and lc: "batch_result model dev loss_fn ds (params s) (training s) (grad_enabled s) b = Inr lc"
    and rest: "map (batch_result model dev loss_fn ds (params s) (training s) (grad_enabled s)) bs = map Inr rs'"
    by (auto simp: Cons_eq_map_conv)
  show ?case
    by (simp add: test_loop_step lc Cons.IH [OF rest] rs algebra_simps del: test_loop.simps)
qed

lemma test_Returns:
  assumes "test model dev loss_fn test_loader s = Returns s'"
  shows "\<exists>rs. map (batch_result model dev loss_fn (dataset test_loader) (params s) False False)
               (fst (iter_loader test_loader (rng s))) = map Inr rs
          \<and> 0 < len_dataset test_loader
          \<and> s' = s\<lparr>training := False, rng := snd (iter_loader test_loader (rng s)),
                 trace := trace s @
                   [Log_metric ''test_loss''
                      (Fixed 4 (sum_list (map fst rs) / real (len_dataset test_loader))) None,
                    Log_metric ''test_accuracy''
                      (Fixed 4 (real_of_int (sum_list (map snd rs)) / real (len_dataset test_loader))) None,
                    test_summary (sum_list (map fst rs) / real (len_dataset test_loader))
                      (sum_list (map snd rs)) (len_dataset test_loader)]\<rparr>"
proof -
  obtain batches r where it: "iter_loader test_loader (rng s) = (batches, r)"
    by (cases "iter_loader test_loader (rng s)")
  let ?s3 = "s\<lparr>training := False, grad_enabled := False, rng := r\<rparr>"
  from assms it obtain tl c where
    loop: "test_loop model dev loss_fn (dataset test_loader) ?s3 batches (0, 0) = Inr (tl, c)"
    by (auto simp: test_def Let_def split: sum.splits prod.splits if_splits)
  from test_loop_Inr [OF loop] obtain rs where
    rs: "map (batch_result model dev loss_fn (dataset test_loader) (params s) False False) batches = map Inr rs"
    and tl: "tl = sum_list (map fst rs)" and c: "c = sum_list (map snd rs)"
    by auto
  from assms it loop have n: "0 < len_dataset test_loader"
    by (auto simp: test_def Let_def split: if_splits)
  from assms it loop n have "s' = s\<lparr>training := False, rng := r,
                 trace := trace s @
                   [Log_metric ''test_loss'' (Fixed 4 (tl / real (len_dataset test_loader))) None,
                    Log_metric ''test_accuracy'' (Fixed 4 (real_of_int c / real (len_dataset test_loader))) None,
                    test_summary (tl / real (len_dataset test_loader)) c (len_dataset test_loader)]\<rparr>"
    by (auto simp: test_def Let_def)
  with rs n it tl c show ?thesis by auto
qed

text \<open>
  Claim C1. When the evaluation step completes, every batch of the pass has produced a
  loss \<open>l\<close> and a number of correct predictions \<open>c\<close>; the step appends to the trace
  exactly the metric \<^verbatim>\<open>test_loss\<close> with the sum of the batch losses divided by the
  number of test examples, the metric \<^verbatim>\<open>test_accuracy\<close> with the sum of the correct
  counts divided by the number of test examples, both without a step, and the summary
  line. The test set is not empty in that case (an empty one raises
  \<^verbatim>\<open>ZeroDivisionError\<close>).
\<close>

theorem test_reports_averages:
  assumes "test model dev loss_fn test_loader s = Returns s'"
  shows "\<exists>rs. map (batch_result model dev loss_fn (dataset test_loader) (params s) False False)
               (fst (iter_loader test_loader (rng s))) = map Inr rs
          \<and> 0 < len_dataset test_loader
          \<and> trace s' = trace s @
               [Log_metric ''test_loss''
                  (Fixed 4 (sum_list (map fst rs) / real (len_dataset test_loader))) None,
                Log_metric ''test_accuracy''
                  (Fixed 4 (real_of_int (sum_list (map snd rs)) / real (len_dataset test_loader))) None,
                test_summary (sum_list (map fst rs) / real (len_dataset test_loader))
                  (sum_list (map snd rs)) (len_dataset test_loader)]"
proof -
  from test_Returns [OF assms] obtain rs where
    "map (batch_result model dev loss_fn (dataset test_loader) (params s) False False)
               (fst (iter_loader test_loader (rng s))) = map Inr rs"
    "0 < len_dataset test_loader"
    "s' = s\<lparr>training := False, rng := snd (iter_loader test_loader (rng s)),
                 trace := trace s @
                   [Log_metric ''test_loss''
                      (Fixed 4 (sum_list (map fst rs) / real (len_dataset test_loader))) None,
                    Log_metric ''test_accuracy''
                      (Fixed 4 (real_of_int (sum_list (map snd rs)) / real (len_dataset test_loader))) None,
                    test_summary (sum_list (map fst rs) / real (len_dataset test_loader))
                      (sum_list (map snd rs)) (len_dataset test_loader)]\<rparr>"
    by blast
  then show ?thesis by (intro exI [of _ rs]) simp
qed

lemma toy_batches: "iter_loader toy_test_loader r = ([[0, 1], [2]], r)"
  by (simp add: iter_loader_def toy_test_loader_def SequentialSampler_def chunks.simps upt_rec)

lemma toy_test_run: "test toy_model Cpu toy_loss toy_test_loader toy_state =
   Returns (toy_state\<lparr>training := False, trace :=
      [Log_metric ''test_loss'' (Fixed 4 1) None,
       Log_metric ''test_accuracy'' (Fixed 4 (2/3)) None,
       test_summary 1 2 3]\<rparr>)"
  by (simp add: test_def toy_batches toy_state_def Let_def fetch_def toy_model_def toy_loss_def
      to_def count_correct_def argmax_def len_dataset_def)
    (simp add: toy_test_loader_def eval_nat_numeral)

text \<open>The toy run: losses 2 and 1 over three examples, two correct predictions.\<close>

theorem test_reports_averages_witness:
  "test toy_model Cpu toy_loss toy_test_loader toy_state =
     Returns (toy_state\<lparr>training := False, trace :=
      [Log_metric ''test_loss'' (Fixed 4 1) None,
       Log_metric ''test_accuracy'' (Fixed 4 (2/3)) None,
       test_summary 1 2 3]\<rparr>)
   \<and> (\<exists>rs. map (batch_result toy_model Cpu toy_loss (dataset toy_test_loader) (params toy_state) False False)
               (fst (iter_loader toy_test_loader (rng toy_state))) = map Inr rs
          \<and> 0 < len_dataset toy_test_loader
          \<and> trace (toy_state\<lparr>training := False, trace :=
      [Log_metric ''test_loss'' (Fixed 4 1) None,
       Log_metric ''test_accuracy'' (Fixed 4 (2/3)) None,
       test_summary 1 2 3]\<rparr>) = trace toy_state @
               [Log_metric ''test_loss''
                  (Fixed 4 (sum_list (map fst rs) / real (len_dataset toy_test_loader))) None,
                Log_metric ''test_accuracy''
                  (Fixed 4 (real_of_int (sum_list (map snd rs)) / real (len_dataset toy_test_loader))) None,
                test_summary (sum_list (map fst rs) / real (len_dataset toy_test_loader))
                  (sum_list (map snd rs)) (len_dataset toy_test_loader)])"
  by (intro conjI) (rule toy_test_run, rule test_reports_averages [OF toy_test_run])

lemma test_loop_cong:
  assumes "\<And>x. model' (params s) (training s) (grad_enabled s) x = model (params s) (training s) (grad_enabled s) x"
  shows "test_loop model' dev loss_fn ds s bs acc = test_loop model dev loss_fn ds s bs acc"
proof (induction bs arbitrary: acc)
  case Nil
  show ?case by simp
next
  case (Cons b bs)
  have "batch_result model' dev loss_fn ds (params s) (training s) (grad_enabled s) b =
        batch_result model dev loss_fn ds (params s) (training s) (grad_enabled s) b"
    by (simp add: batch_result_def assms split: sum.splits prod.splits)
  then show ?case
    by (simp add: test_loop_step Cons.IH del: test_loop.simps split: sum.splits)
qed

lemma test_frame_lemma:
  "params (final (test model dev loss_fn test_loader s)) = params s \<and>
   grads (final (test model dev loss_fn test_loader s)) = grads s \<and>
   opt_state (final (test model dev loss_fn test_loader s)) = opt_state s \<and>
   grad_enabled (final (test model dev loss_fn test_loader s)) = grad_enabled s \<and>
   training (final (test model dev loss_fn test_loader s)) = False"
  by (auto simp: test_def Let_def split: sum.splits prod.splits)

lemma test_model_cong:
  assumes "\<And>p x. model' p False False x = model p False False x"
  shows "test model' dev loss_fn test_loader s = test model dev loss_fn test_loader s"
proof -
  have "test_loop model' dev loss_fn ds (s\<lparr>training := False, grad_enabled := False, rng := r\<rparr>) bs acc =
        test_loop model dev loss_fn ds (s\<lparr>training := False, grad_enabled := False, rng := r\<rparr>) bs acc"
    for ds r bs acc
    by (rule test_loop_cong) (simp add: assms)
  then show ?thesis
    by (simp add: test_def Let_def split: prod.splits)
qed

text \<open>
  Claim C5. However the evaluation step ends, the parameters of the model in the state
  it leaves are those it started from. And the step calls the model only in
  evaluation mode with gradient tracking switched off: a model that agrees with
  \<open>model\<close> on such calls gives the same outcome, whatever it does on other calls and
  whatever the flags were on entry.
\<close>

theorem test_leaves_parameters:
  "params (final (test model dev loss_fn test_loader s)) = params s \<and>
   ((\<forall>p x. model' p False False x = model p False False x) \<longrightarrow>
      test model' dev loss_fn test_loader s = test model dev loss_fn test_loader s)"
  using test_frame_lemma [of model dev loss_fn test_loader s]
    test_model_cong [of model' model dev loss_fn test_loader s]
  by blast

lemma strict_agrees: "\<forall>p x. strict_model p False False x = toy_model p False False x"
  by (simp add: strict_model_def)

text \<open>
  The strict model raises on every call outside evaluation mode or with gradient
  tracking on; started with both flags set, the step behaves as with the toy model.
\<close>

theorem test_leaves_parameters_witness:
  "(\<forall>p x. strict_model p False False x = toy_model p False False x) \<and>
   grad_enabled toy_state \<and>
   params (final (test toy_model Cpu toy_loss toy_test_loader toy_state)) = params toy_state \<and>
   test strict_model Cpu toy_loss toy_test_loader toy_state =
     test toy_model Cpu toy_loss toy_test_loader toy_state"
  using test_leaves_parameters [of toy_model Cpu toy_loss toy_test_loader toy_state strict_model]
    strict_agrees
  by (simp add: toy_state_def)

lemma DataLoader_no_shuffle:
  "DataLoader RandomSampler ds bs False = Inr ld \<Longrightarrow> sampler ld = SequentialSampler \<and> 0 < batch_size ld"
  by (auto simp: DataLoader_def split: if_splits)

lemma iter_sequential:
  "sampler ld = SequentialSampler \<Longrightarrow> iter_loader ld r = (chunks (batch_size ld) [0..<length (dataset ld)], r)"
  by (simp add: iter_loader_def SequentialSampler_def)

text \<open>
  Claim C6. With a test loader that does not shuffle (as the script builds it), a
  completed evaluation step followed by a second one on the state the first one left:
  the second completes too and reports the same loss, the same accuracy and the same
  summary line; the parameters are still those before the first call.
\<close>

theorem test_idempotent:
  assumes seq: "sampler test_loader = SequentialSampler"
    and first: "test model dev loss_fn test_loader s = Returns s1"
  shows "\<exists>s2 l a line. test model dev loss_fn test_loader s1 = Returns s2
      \<and> trace s1 = trace s @ [Log_metric ''test_loss'' l None, Log_metric ''test_accuracy'' a None, Print line]
      \<and> trace s2 = trace s1 @ [Log_metric ''test_loss'' l None, Log_metric ''test_accuracy'' a None, Print line]
      \<and> params s2 = params s"
proof -
  let ?bs = "chunks (batch_size test_loader) [0..<length (dataset test_loader)]"
  let ?n = "len_dataset test_loader"
  from test_Returns [OF first] obtain rs where
    rs: "map (batch_result model dev loss_fn (dataset test_loader) (params s) False False) ?bs = map Inr rs"
    and n: "0 < ?n"
    and s1: "s1 = s\<lparr>training := False, rng := rng s,
                 trace := trace s @
                   [Log_metric ''test_loss'' (Fixed 4 (sum_list (map fst rs) / real ?n)) None,
                    Log_metric ''test_accuracy'' (Fixed 4 (real_of_int (sum_list (map snd rs)) / real ?n)) None,
                    test_summary (sum_list (map fst rs) / real ?n) (sum_list (map snd rs)) ?n]\<rparr>"
    by (auto simp: iter_sequential [OF seq])
  let ?s3 = "s1\<lparr>training := False, grad_enabled := False, rng := rng s1\<rparr>"
  have "map (batch_result model dev loss_fn (dataset test_loader) (params ?s3) (training ?s3) (grad_enabled ?s3)) ?bs = map Inr rs"
    using rs by (simp add: s1)
  from test_loop_total [OF this]
  have loop: "test_loop model dev loss_fn (dataset test_loader) ?s3 ?bs (0, 0) =
      Inr (sum_list (map fst rs), sum_list (map snd rs))"
    by simp
  have "test model dev loss_fn test_loader s1 = Returns (s1\<lparr>training := False, trace := trace s1 @
                   [Log_metric ''test_loss'' (Fixed 4 (sum_list (map fst rs) / real ?n)) None,
                    Log_metric ''test_accuracy'' (Fixed 4 (real_of_int (sum_list (map snd rs)) / real ?n)) None,
                    test_summary (sum_list (map fst rs) / real ?n) (sum_list (map snd rs)) ?n]\<rparr>)"
    using n loop by (simp add: test_def Let_def iter_sequential [OF seq])
  then show ?thesis
    by (simp add: s1 test_summary_def)
qed

text \<open>Two evaluation steps in a row on the toy run.\<close>

theorem test_idempotent_witness:
  "sampler toy_test_loader = SequentialSampler \<and>
   (\<exists>s1 s2 l a line. test toy_model Cpu toy_loss toy_test_loader toy_state = Returns s1
      \<and> test toy_model Cpu toy_loss toy_test_loader s1 = Returns s2
      \<and> trace s1 = trace toy_state @ [Log_metric ''test_loss'' l None, Log_metric ''test_accuracy'' a None, Print line]
      \<and> trace s2 = trace s1 @ [Log_metric ''test_loss'' l None, Log_metric ''test_accuracy'' a None, Print line]
      \<and> params s2 = params toy_state)"
proof -
  have seq: "sampler toy_test_loader = SequentialSampler"
    by (simp add: toy_test_loader_def)
  from test_idempotent [OF seq toy_test_run] toy_test_run seq show ?thesis
    by blast
qed

section \<open>Properties of the training step\<close>


lemma kind_body_events: "map kind_of (body_events epoch i ld n nb loss acc) = marks epoch i"
  by (simp add: body_events_def marks_def train_progress_def)

lemma train_body_Returns:
  assumes "train_body backward model dev loss_fn train_loader optimizer epoch i idxs (s, L) = Returns (s', L')"
  shows "\<exists>data target output loss c.
      fetch (dataset train_loader) idxs = Inr (data, target)
    \<and> model (params s) (training s) (grad_enabled s) data = Inr output
    \<and> call_loss loss_fn output target = Inr loss
    \<and> count_correct output target = Inr c
    \<and> grad_enabled s
    \<and> 0 < len_dataset train_loader
    \<and> correct L' = correct L + c
    \<and> train_acc L' = Some (real_of_int (correct L + c) / real (len_dataset train_loader))
    \<and> trace s' = trace s @ body_events epoch i (length data) (len_dataset train_loader)
          (len_loader train_loader) loss (real_of_int (correct L + c) / real (len_dataset train_loader))
    \<and> training s' = training s \<and> grad_enabled s' = grad_enabled s \<and> rng s' = rng s"
  using assms
  by (auto simp: train_body_def Let_def to_def body_events_def
      split: sum.splits prod.splits if_splits)

lemma upt_zip_Cons:
  "zip [0..<Suc n] (v # vs) = (0, v) # map (\<lambda>(j, x). (Suc j, x)) (zip [0..<n] vs)"
proof -
  have "[0..<Suc n] = 0 # map Suc [0..<n]"
    by (simp add: upt_conv_Cons map_Suc_upt del: upt_Suc)
  then show ?thesis by (simp add: zip_map1 del: upt_Suc)
qed

lemma train_loop_events:
  assumes "train_loop backward model dev loss_fn train_loader optimizer epoch bs i (s, L) = Returns (s', L')"
  shows "\<exists>vs. length vs = length bs \<and>
     trace s' = trace s @ concat (map (\<lambda>(j, (d, l, a)).
        body_events epoch (i + int j) d (len_dataset train_loader) (len_loader train_loader) l a)
        (zip [0..<length bs] vs))"
  using assms
proof (induction bs arbitrary: i s L)
  case Nil
  then show ?case by simp
next
  case (Cons b bs)
  from Cons.prems obtain s1 L1 where
    b: "train_body backward model dev loss_fn train_loader optimizer epoch i b (s, L) = Returns (s1, L1)"
    and rest: "train_loop backward model dev loss_fn train_loader optimizer epoch bs (i + 1) (s1, L1) = Returns (s', L')"
    by (auto split: outcome.splits)
  from train_body_Returns [OF b] obtain d l a where
    t1: "trace s1 = trace s @ body_events epoch i d (len_dataset train_loader) (len_loader train_loader) l a"
    by blast
  from Cons.IH [OF rest] obtain vs where
    len: "length vs = length bs" and
    t2: "trace s' = trace s1 @ concat (map (\<lambda>(j, (d, l, a)).
        body_events epoch (i + 1 + int j) d (len_dataset train_loader) (len_loader train_loader) l a)
        (zip [0..<length bs] vs))"
    by blast
  have shift: "(\<lambda>(j, (d, l, a)). body_events epoch (i + 1 + int j) d (len_dataset train_loader) (len_loader train_loader) l a)
      = (\<lambda>(j, (d, l, a)). body_events epoch (i + int j) d (len_dataset train_loader) (len_loader train_loader) l a) \<circ> (\<lambda>(j, x). (Suc j, x))"
    by (auto simp: fun_eq_iff algebra_simps)
  show ?case
    apply (rule exI [of _ "(d, l, a) # vs"])
    apply (simp add: len t1 t2 upt_zip_Cons del: upt_Suc)
    apply (simp only: shift)
    done
qed

lemma concat_marks_zip:
  "length vs = n \<Longrightarrow>
   concat (map (\<lambda>x. map kind_of (case x of (j, (d, l, a)) \<Rightarrow> body_events epoch (i + int j) d nd nb l a)) (zip [0..<n] vs))
   = concat (map (\<lambda>j. marks epoch (i + int j)) [0..<n])"
proof -
  assume len: "length vs = n"
  have "map (\<lambda>x. map kind_of (case x of (j, (d, l, a)) \<Rightarrow> body_events epoch (i + int j) d nd nb l a)) (zip [0..<n] vs)
      = map (\<lambda>x. marks epoch (i + int (fst x))) (zip [0..<n] vs)"
    by (rule map_cong) (auto simp: kind_body_events)
  also have "\<dots> = map (\<lambda>j. marks epoch (i + int j)) (map fst (zip [0..<n] vs))"
    by (simp add: comp_def)
  also have "map fst (zip [0..<n] vs) = [0..<n]"
    using len by simp
  finally show ?thesis by simp
qed

lemma train_loop_kinds:
  assumes "train_loop backward model dev loss_fn train_loader optimizer epoch bs i (s, L) = Returns (s', L')"
  shows "\<exists>evs. trace s' = trace s @ evs \<and>
     map kind_of evs = concat (map (\<lambda>j. marks epoch (i + int j)) [0..<length bs])"
proof -
  from train_loop_events [OF assms] obtain vs where len: "length vs = length bs" and
    t: "trace s' = trace s @ concat (map (\<lambda>(j, (d, l, a)).
        body_events epoch (i + int j) d (len_dataset train_loader) (len_loader train_loader) l a)
        (zip [0..<length bs] vs))"
    by blast
  show ?thesis
    apply (rule exI, rule conjI, rule t)
    apply (simp add: map_concat comp_def concat_marks_zip [OF len])
    done
qed

lemma train_Returns_loop:
  assumes "train backward model dev loss_fn train_loader optimizer epoch s = Returns s'"
  shows "\<exists>L'. train_loop backward model dev loss_fn train_loader optimizer epoch
             (fst (iter_loader train_loader (rng s))) 0 (train_start train_loader s) = Returns (s', L')"
  using assms by (auto simp: train_def split: outcome.splits)

lemma train_kinds:
  assumes "train backward model dev loss_fn train_loader optimizer epoch s = Returns s'"
  shows "\<exists>evs. trace s' = trace s @ evs \<and>
     map kind_of evs = concat (map (\<lambda>j. marks epoch (int j))
        [0..<length (fst (iter_loader train_loader (rng s)))])"
proof -
  from train_Returns_loop [OF assms] obtain L' where
    "train_loop backward model dev loss_fn train_loader optimizer epoch
             (fst (iter_loader train_loader (rng s))) 0
             (s\<lparr>training := True, rng := snd (iter_loader train_loader (rng s))\<rparr>,
              \<lparr>correct = 0, train_acc = None\<rparr>) = Returns (s', L')"
    by (auto simp: train_start_def)
  from train_loop_kinds [OF this] show ?thesis by simp
qed

text \<open>
  Claim C3. When one training epoch completes, what it has appended to the trace is,
  batch index by batch index in order, for an index divisible by 100 the \<^verbatim>\<open>loss\<close>
  metric, the \<^verbatim>\<open>accuracy\<close> metric (both with the step computed from the batch index
  and the epoch) and the progress line of the epoch, and for every other index
  nothing.
\<close>

theorem train_logs_every_100th:
  assumes "train backward model dev loss_fn train_loader optimizer epoch s = Returns s'"
  shows "\<exists>evs. trace s' = trace s @ evs \<and>
     map kind_of evs =
       concat (map (\<lambda>j. if int j mod 100 = 0
                         then [K_metric ''loss'' (Some (int j div 100 * (epoch + 1))),
                               K_metric ''accuracy'' (Some (int j div 100 * (epoch + 1))),
                               K_progress epoch]
                         else [])
                 [0..<length (fst (iter_loader train_loader (rng s)))])"
  using train_kinds [OF assms] by (simp add: marks_def)

lemma toy_train_batches: "iter_loader toy_train_loader r = ([[2], [1], [0]], Suc r)"
  by (simp add: iter_loader_def toy_train_loader_def toy_sampler_def chunks.simps upt_rec)


lemma chunks_one: "chunks (Suc 0) xs = map (\<lambda>x. [x]) xs"
proof (induction xs)
  case Nil
  show ?case by (simp add: chunks.simps)
next
  case (Cons x xs)
  then show ?case by (subst chunks.simps) simp
qed

lemma long_batches: "iter_loader long_loader r = (map (\<lambda>i. [i]) [0..<201], r)"
  by (simp add: iter_loader_def long_loader_def SequentialSampler_def chunks_one)

lemma toy_argmax_dim1:
  "\<exists>ps. argmax_dim1 (map (\<lambda>x. [p * x, 1 - x]) xs) = Inr ps \<and> length ps = length xs"
  by (induction xs) (auto simp: argmax_def)

lemma toy_count_correct:
  "length target = length xs \<Longrightarrow> \<exists>c. count_correct (map (\<lambda>x. [p * x, 1 - x]) xs) target = Inr c"
  using toy_argmax_dim1 [of p xs] by (auto simp: count_correct_def)

lemma toy_body_total:
  assumes "grad_enabled s" "idx < length (dataset ld)" "0 < len_loader ld"
  shows "\<exists>s' L'. train_body toy_backward toy_model dev toy_loss ld toy_optimizer e i [idx] (s, L) = Returns (s', L')
           \<and> grad_enabled s'"
proof -
  obtain c where c: "count_correct (map (\<lambda>x. [params s * x, 1 - x]) [fst (dataset ld ! idx)]) [snd (dataset ld ! idx)] = Inr c"
    using toy_count_correct [of "[snd (dataset ld ! idx)]" "[fst (dataset ld ! idx)]" "params s"] by auto
  from assms(2) have n: "len_dataset ld \<noteq> 0" by (auto simp: len_dataset_def)
  show ?thesis
    using assms c n
    by (simp add: train_body_def Let_def fetch_def toy_model_def toy_loss_def to_def
        toy_backward_def toy_optimizer_def)
qed

lemma toy_loop_total:
  assumes "grad_enabled s" "\<forall>idx \<in> set idxs. idx < length (dataset ld)" "0 < len_loader ld"
  shows "\<exists>sl'. train_loop toy_backward toy_model dev toy_loss ld toy_optimizer e (map (\<lambda>i. [i]) idxs) i (s, L) = Returns sl'"
  using assms(1,2)
proof (induction idxs arbitrary: i s L)
  case Nil
  show ?case by simp
next
  case (Cons idx idxs)
  from Cons.prems have "idx < length (dataset ld)" by simp
  from toy_body_total [OF Cons.prems(1) this assms(3)] obtain s' L' where
    b: "train_body toy_backward toy_model dev toy_loss ld toy_optimizer e i [idx] (s, L) = Returns (s', L')"
    and g: "grad_enabled s'" by blast
  from Cons.prems have "\<forall>idx \<in> set idxs. idx < length (dataset ld)" by simp
  from Cons.IH [OF g this] b show ?case by simp
qed

lemma long_train_returns:
  "\<exists>s'. train toy_backward toy_model Cpu toy_loss long_loader toy_optimizer e toy_state = Returns s'"
proof -
  have g: "grad_enabled (fst (train_start long_loader toy_state))"
    by (simp add: train_start_def toy_state_def)
  have r: "\<forall>idx \<in> set [0..<201]. idx < length (dataset long_loader)"
    by (simp add: long_loader_def)
  have l: "0 < len_loader long_loader"
    by (simp add: len_loader_def long_loader_def)
  from toy_loop_total [OF g r l, of Cpu e 0 "snd (train_start long_loader toy_state)"]
  show ?thesis
    by (auto simp: train_def long_batches)
qed

lemma long_marks:
  "concat (map (\<lambda>j. if int j mod 100 = 0
                         then [K_metric ''loss'' (Some (int j div 100 * (2 + 1))),
                               K_metric ''accuracy'' (Some (int j div 100 * (2 + 1))),
                               K_progress 2]
                         else [])
                 [0..<201]) =
   [K_metric ''loss'' (Some 0), K_metric ''accuracy'' (Some 0), K_progress 2,
    K_metric ''loss'' (Some 3), K_metric ''accuracy'' (Some 3), K_progress 2,
    K_metric ''loss'' (Some 6), K_metric ''accuracy'' (Some 6), K_progress 2]"
  by code_simp

text \<open>
  An epoch of 201 batches run as epoch 2: records are left at the batch indices 0, 100
  and 200 only, with the steps 0, 3 and 6.
\<close>

theorem train_logs_every_100th_witness:
  "\<exists>s' evs. train toy_backward toy_model Cpu toy_loss long_loader toy_optimizer 2 toy_state = Returns s'
     \<and> length (fst (iter_loader long_loader (rng toy_state))) = 201
     \<and> trace s' = trace toy_state @ evs
     \<and> map kind_of evs =
         [K_metric ''loss'' (Some 0), K_metric ''accuracy'' (Some 0), K_progress 2,
          K_metric ''loss'' (Some 3), K_metric ''accuracy'' (Some 3), K_progress 2,
          K_metric ''loss'' (Some 6), K_metric ''accuracy'' (Some 6), K_progress 2]"
proof -
  from long_train_returns obtain s' where
    run: "train toy_backward toy_model Cpu toy_loss long_loader toy_optimizer 2 toy_state = Returns s'"
    by blast
  have n: "length (fst (iter_loader long_loader (rng toy_state))) = 201"
    by (simp add: long_batches)
  from train_logs_every_100th [OF run] obtain evs where
    "trace s' = trace toy_state @ evs"
    "map kind_of evs =
       concat (map (\<lambda>j. if int j mod 100 = 0
                         then [K_metric ''loss'' (Some (int j div 100 * (2 + 1))),
                               K_metric ''accuracy'' (Some (int j div 100 * (2 + 1))),
                               K_progress 2]
                         else [])
                 [0..<201])"
    unfolding n by blast
  with run n show ?thesis
    unfolding long_marks by (intro exI [of _ s'] exI [of _ evs]) simp
qed

lemma concat_map_concat:
  "concat (map f (concat xss)) = concat (map (\<lambda>xs. concat (map f xs)) xss)"
  by (induction xss) auto

text \<open>
  Claim C10. The step indices of the metrics a completed training epoch logs are, batch
  index by batch index, twice \<open>batch_idx div 100 * (epoch + 1)\<close> for an index divisible
  by 100 and none otherwise. When the epoch has at least one batch, the first two
  events are the \<^verbatim>\<open>loss\<close> and \<^verbatim>\<open>accuracy\<close> metrics at step 0, whatever the epoch
  index is: every epoch starts at step 0, so steps repeat across epochs.
\<close>

theorem train_step_index:
  assumes "train backward model dev loss_fn train_loader optimizer epoch s = Returns s'"
  shows "\<exists>evs. trace s' = trace s @ evs \<and>
     concat (map metric_step evs) =
       concat (map (\<lambda>j. if int j mod 100 = 0
                         then [int j div 100 * (epoch + 1), int j div 100 * (epoch + 1)]
                         else [])
                 [0..<length (fst (iter_loader train_loader (rng s)))]) \<and>
     (fst (iter_loader train_loader (rng s)) \<noteq> [] \<longrightarrow>
        (\<exists>l a rest. evs = Log_metric ''loss'' l (Some 0) # Log_metric ''accuracy'' a (Some 0) # rest))"
proof -
  let ?bs = "fst (iter_loader train_loader (rng s))"
  let ?n = "len_dataset train_loader" and ?nb = "len_loader train_loader"
  from train_Returns_loop [OF assms] obtain L' where
    loop: "train_loop backward model dev loss_fn train_loader optimizer epoch ?bs 0
             (s\<lparr>training := True, rng := snd (iter_loader train_loader (rng s))\<rparr>,
              \<lparr>correct = 0, train_acc = None\<rparr>) = Returns (s', L')"
    by (auto simp: train_start_def)
  from train_loop_events [OF loop] obtain vs where len: "length vs = length ?bs" and
    t: "trace s' = trace s @ concat (map (\<lambda>(j, (d, l, a)).
        body_events epoch (int j) d ?n ?nb l a) (zip [0..<length ?bs] vs))"
    by auto
  let ?evs = "concat (map (\<lambda>(j, (d, l, a)). body_events epoch (int j) d ?n ?nb l a) (zip [0..<length ?bs] vs))"
  let ?g = "\<lambda>j. if int j mod 100 = 0
                         then [int j div 100 * (epoch + 1), int j div 100 * (epoch + 1)]
                         else []"
  have "concat (map metric_step ?evs) =
      concat (map (\<lambda>x. concat (map metric_step (case x of (j, (d, l, a)) \<Rightarrow> body_events epoch (int j) d ?n ?nb l a)))
        (zip [0..<length ?bs] vs))"
    by (simp add: concat_map_concat comp_def)
  also have "map (\<lambda>x. concat (map metric_step (case x of (j, (d, l, a)) \<Rightarrow> body_events epoch (int j) d ?n ?nb l a)))
        (zip [0..<length ?bs] vs) = map (\<lambda>x. ?g (fst x)) (zip [0..<length ?bs] vs)"
    by (rule map_cong) (auto simp: body_events_def train_progress_def)
  also have "\<dots> = map ?g (map fst (zip [0..<length ?bs] vs))"
    by (simp add: comp_def)
  also have "map fst (zip [0..<length ?bs] vs) = [0..<length ?bs]"
    using len by simp
  finally have steps: "concat (map metric_step ?evs) = concat (map ?g [0..<length ?bs])" .
  have first: "\<exists>l a rest. ?evs = Log_metric ''loss'' l (Some 0) # Log_metric ''accuracy'' a (Some 0) # rest"
    if "?bs \<noteq> []"
  proof -
    from that len obtain b bs' v vs' where "?bs = b # bs'" "vs = v # vs'"
      by (cases ?bs; cases vs) auto
    then show ?thesis
      by (cases v) (auto simp: upt_zip_Cons body_events_def simp del: upt_Suc)
  qed
  from t steps first show ?thesis by blast
qed

lemma long_steps:
  "concat (map (\<lambda>j. if int j mod 100 = 0
                         then [int j div 100 * (4 + 1), int j div 100 * (4 + 1)]
                         else [])
                 [0..<201]) = [0, 0, 5, 5, 10, 10]"
  by code_simp

text \<open>The same epoch run as epoch 4: the metric steps are 0, 5 and 10, each twice.\<close>

theorem train_step_index_witness:
  "\<exists>s' evs. train toy_backward toy_model Cpu toy_loss long_loader toy_optimizer 4 toy_state = Returns s'
     \<and> fst (iter_loader long_loader (rng toy_state)) \<noteq> []
     \<and> trace s' = trace toy_state @ evs
     \<and> concat (map metric_step evs) = [0, 0, 5, 5, 10, 10]
     \<and> (\<exists>l a rest. evs = Log_metric ''loss'' l (Some 0) # Log_metric ''accuracy'' a (Some 0) # rest)"
proof -
  from long_train_returns obtain s' where
    run: "train toy_backward toy_model Cpu toy_loss long_loader toy_optimizer 4 toy_state = Returns s'"
    by blast
  have n: "length (fst (iter_loader long_loader (rng toy_state))) = 201"
    and ne: "fst (iter_loader long_loader (rng toy_state)) \<noteq> []"
    by (simp_all add: long_batches)
  from train_step_index [OF run] ne obtain evs where
    "trace s' = trace toy_state @ evs"
    "concat (map metric_step evs) =
       concat (map (\<lambda>j. if int j mod 100 = 0
                         then [int j div 100 * (4 + 1), int j div 100 * (4 + 1)]
                         else [])
                 [0..<201])"
    "\<exists>l a rest. evs = Log_metric ''loss'' l (Some 0) # Log_metric ''accuracy'' a (Some 0) # rest"
    unfolding n by blast
  with run ne show ?thesis
    unfolding long_steps by (intro exI [of _ s'] exI [of _ evs]) simp
qed

lemma train_loop_append:
  "train_loop backward model dev loss_fn train_loader optimizer epoch (bs1 @ bs2) i sl =
     (case train_loop backward model dev loss_fn train_loader optimizer epoch bs1 i sl of
        Raises e sl' \<Rightarrow> Raises e sl'
      | Returns sl' \<Rightarrow>
          train_loop backward model dev loss_fn train_loader optimizer epoch bs2
            (i + int (length bs1)) sl')"
proof (induction bs1 arbitrary: i sl)
  case Nil
  show ?case by simp
next
  case (Cons b bs1)
  show ?case
    by (cases "train_body backward model dev loss_fn train_loader optimizer epoch i b sl")
      (auto simp: Cons.IH algebra_simps split: outcome.splits)
qed

lemma train_loop_prefix:
  assumes "train_loop backward model dev loss_fn train_loader optimizer epoch bs 0 sl = Returns sl'"
  shows "\<exists>slk. train_loop backward model dev loss_fn train_loader optimizer epoch (take k bs) 0 sl = Returns slk
     \<and> train_loop backward model dev loss_fn train_loader optimizer epoch (drop k bs)
          (int (length (take k bs))) slk = Returns sl'"
proof -
  have "train_loop backward model dev loss_fn train_loader optimizer epoch (take k bs @ drop k bs) 0 sl = Returns sl'"
    using assms by simp
  then show ?thesis
    unfolding train_loop_append by (auto split: outcome.splits)
qed






lemma after_returns:
  assumes run: "train backward model dev loss_fn train_loader optimizer epoch s = Returns s'"
  shows "\<exists>sk Lk. after_batches backward model dev loss_fn train_loader optimizer epoch s k = Returns (sk, Lk)"
proof -
  from train_Returns_loop [OF run] obtain L' where
    full: "train_loop backward model dev loss_fn train_loader optimizer epoch
      (fst (iter_loader train_loader (rng s))) 0 (train_start train_loader s) = Returns (s', L')" by blast
  from train_loop_prefix [OF full, of k] show ?thesis
    by (force simp: after_batches_def)
qed

lemma after_all:
  assumes run: "train backward model dev loss_fn train_loader optimizer epoch s = Returns s'"
  shows "\<exists>L. after_batches backward model dev loss_fn train_loader optimizer epoch s
            (length (fst (iter_loader train_loader (rng s)))) = Returns (s', L)"
  using train_Returns_loop [OF run] by (simp add: after_batches_def)










section \<open>Properties of the run\<close>

lemma epoch_loop_decomp:
  assumes "epoch_loop backward model dev loss_fn train_loader test_loader optimizer es s = Returns s'"
  shows "\<exists>ss ts. length ss = Suc (length es) \<and> length ts = length es \<and> ss ! 0 = s \<and> ss ! length es = s'
     \<and> (\<forall>i < length es.
           train backward model dev loss_fn train_loader optimizer (es ! i) (ss ! i) = Returns (ts ! i)
         \<and> test model dev loss_fn test_loader (ts ! i) = Returns (ss ! Suc i))"
  using assms
proof (induction es arbitrary: s)
  case Nil
  then show ?case by (intro exI [of _ "[s]"] exI [of _ "[]"]) simp
next
  case (Cons e es)
  from Cons.prems obtain s1 s2 where
    tr: "train backward model dev loss_fn train_loader optimizer e s = Returns s1"
    and te: "test model dev loss_fn test_loader s1 = Returns s2"
    and rest: "epoch_loop backward model dev loss_fn train_loader test_loader optimizer es s2 = Returns s'"
    by (auto split: outcome.splits)
  from Cons.IH [OF rest] obtain ss ts where
    l1: "length ss = Suc (length es)" and l2: "length ts = length es"
    and h: "ss ! 0 = s2" and la: "ss ! length es = s'"
    and st: "\<forall>i < length es.
           train backward model dev loss_fn train_loader optimizer (es ! i) (ss ! i) = Returns (ts ! i)
         \<and> test model dev loss_fn test_loader (ts ! i) = Returns (ss ! Suc i)"
    by blast
  have steps: "train backward model dev loss_fn train_loader optimizer ((e # es) ! i) ((s # ss) ! i) = Returns ((s1 # ts) ! i)
         \<and> test model dev loss_fn test_loader ((s1 # ts) ! i) = Returns ((s # ss) ! Suc i)"
    if "i < length (e # es)" for i
    using that tr te st h by (cases i) simp_all
  show ?case
    using steps by (intro exI [of _ "s # ss"] exI [of _ "s1 # ts"]) (simp add: l1 l2 la)
qed

lemma train_no_summary:
  assumes "train backward model dev loss_fn train_loader optimizer epoch s = Returns s'"
  shows "\<exists>evs. trace s' = trace s @ evs \<and> summaries evs = []"
proof -
  from train_kinds [OF assms] obtain evs where t: "trace s' = trace s @ evs"
    and k: "map kind_of evs = concat (map (\<lambda>j. marks epoch (int j))
        [0..<length (fst (iter_loader train_loader (rng s)))])"
    by blast
  have "K_summary \<notin> set (map kind_of evs)"
    unfolding k by (auto simp: marks_def)
  then have "summaries evs = []"
    by (force simp: summaries_def filter_empty_conv)
  with t show ?thesis by blast
qed

lemma test_one_summary:
  assumes "test model dev loss_fn test_loader s = Returns s'"
  shows "\<exists>evs. trace s' = trace s @ evs \<and> length (summaries evs) = 1"
proof -
  from test_Returns [OF assms] obtain evs where "trace s' = trace s @ evs"
    and "\<exists>l a x c n. evs = [Log_metric ''test_loss'' l None, Log_metric ''test_accuracy'' a None, test_summary x c n]"
    by fastforce
  then show ?thesis
    by (auto simp: summaries_def test_summary_def)
qed

lemma epoch_loop_summaries:
  assumes "epoch_loop backward model dev loss_fn train_loader test_loader optimizer es s = Returns s'"
  shows "\<exists>evs. trace s' = trace s @ evs \<and> length (summaries evs) = length es"
  using assms
proof (induction es arbitrary: s)
  case Nil
  then show ?case by (simp add: summaries_def)
next
  case (Cons e es)
  from Cons.prems obtain s1 s2 where
    tr: "train backward model dev loss_fn train_loader optimizer e s = Returns s1"
    and te: "test model dev loss_fn test_loader s1 = Returns s2"
    and rest: "epoch_loop backward model dev loss_fn train_loader test_loader optimizer es s2 = Returns s'"
    by (auto split: outcome.splits)
  from train_no_summary [OF tr] obtain e1 where e1: "trace s1 = trace s @ e1" "summaries e1 = []" by blast
  from test_one_summary [OF te] obtain e2 where e2: "trace s2 = trace s1 @ e2" "length (summaries e2) = 1" by blast
  from Cons.IH [OF rest] obtain e3 where e3: "trace s' = trace s2 @ e3" "length (summaries e3) = length es" by blast
  show ?case
    using e1 e2 e3 by (intro exI [of _ "e1 @ e2 @ e3"]) (simp add: summaries_def)
qed

lemma epochs_list: "length [1..epochs] = 10 \<and> (\<forall>i<10. [1..epochs] ! i = int i + 1)"
  by (simp add: epochs_def)

text \<open>
  Claim C4. A run that completes has gone through these states: the run is started
  and the hyperparameters and the model summary are logged; then for \<open>i\<close> from 0 to 9
  the training step with epoch index \<open>i + 1\<close> completes and the evaluation step
  completes right after it, on the state the training step left; then one more
  evaluation step completes, and the run is closed as finished. What the run has
  appended to the trace holds exactly 11 evaluation summary lines.
\<close>

theorem main_run_epochs:
  assumes "main_run summary backward model dev loss_fn train_loader test_loader optimizer s = Returns s'"
  shows "\<exists>ss ts sf evs.
       length ss = 11 \<and> length ts = 10
     \<and> ss ! 0 = s\<lparr>trace := trace s @
                  [Start_run, Log_params (hyperparameters loss_fn),
                   Write_file ''model_summary.txt'' (summary (params s)),
                   Log_artifact ''model_summary.txt'']\<rparr>
     \<and> (\<forall>i<10. train backward model dev loss_fn train_loader optimizer (int i + 1) (ss ! i) = Returns (ts ! i)
               \<and> test model dev loss_fn test_loader (ts ! i) = Returns (ss ! Suc i))
     \<and> test model dev loss_fn test_loader (ss ! 10) = Returns sf
     \<and> s' = sf\<lparr>trace := trace sf @ [End_run FINISHED]\<rparr>
     \<and> trace s' = trace s @ evs
     \<and> length (summaries evs) = 11"
proof -
  let ?s0 = "s\<lparr>trace := trace s @
                  [Start_run, Log_params (hyperparameters loss_fn),
                   Write_file ''model_summary.txt'' (summary (params s)),
                   Log_artifact ''model_summary.txt'']\<rparr>"
  from assms obtain s10 sf where
    loop: "epoch_loop backward model dev loss_fn train_loader test_loader optimizer [1..epochs] ?s0 = Returns s10"
    and fin: "test model dev loss_fn test_loader s10 = Returns sf"
    and s': "s' = sf\<lparr>trace := trace sf @ [End_run FINISHED]\<rparr>"
    by (auto simp: main_run_def run_body_def Let_def split: outcome.splits)
  from epoch_loop_decomp [OF loop] obtain ss ts where
    l1: "length ss = Suc (length [1..epochs])" and l2: "length ts = length [1..epochs]"
    and h: "ss ! 0 = ?s0" and la: "ss ! length [1..epochs] = s10"
    and st: "\<forall>i < length [1..epochs].
           train backward model dev loss_fn train_loader optimizer ([1..epochs] ! i) (ss ! i) = Returns (ts ! i)
         \<and> test model dev loss_fn test_loader (ts ! i) = Returns (ss ! Suc i)"
    by blast
  from epoch_loop_summaries [OF loop] obtain e1 where
    e1: "trace s10 = trace ?s0 @ e1" "length (summaries e1) = length [1..epochs]" by blast
  from test_one_summary [OF fin] obtain e2 where
    e2: "trace sf = trace s10 @ e2" "length (summaries e2) = 1" by blast
  let ?evs = "[Start_run, Log_params (hyperparameters loss_fn),
                   Write_file ''model_summary.txt'' (summary (params s)),
                   Log_artifact ''model_summary.txt''] @ e1 @ e2 @ [End_run FINISHED]"
  have tr: "trace s' = trace s @ ?evs"
    by (simp add: s' e1 e2)
  have cnt: "length (summaries ?evs) = 11"
    using e1(2) e2(2) epochs_list by (simp add: summaries_def)
  from epochs_list st have st': "\<forall>i<10.
           train backward model dev loss_fn train_loader optimizer (int i + 1) (ss ! i) = Returns (ts ! i)
         \<and> test model dev loss_fn test_loader (ts ! i) = Returns (ss ! Suc i)"
    by simp
  from epochs_list l1 l2 la have "length ss = 11" "length ts = 10" "ss ! 10 = s10"
    by simp_all
  with h st' fin s' tr cnt show ?thesis
    by blast
qed

lemma toy_train_total:
  "grad_enabled s \<Longrightarrow> \<exists>s'. train toy_backward toy_model Cpu toy_loss toy_train_loader toy_optimizer e s = Returns s'
      \<and> grad_enabled s'"
  by (simp add: train_def train_start_def toy_train_batches train_body_def Let_def
      fetch_def toy_model_def toy_loss_def to_def count_correct_def argmax_def len_dataset_def
      len_loader_def toy_backward_def toy_optimizer_def)
    (simp add: toy_train_loader_def)

lemma toy_test_total:
  "grad_enabled s \<Longrightarrow> \<exists>s'. test toy_model Cpu toy_loss toy_test_loader s = Returns s' \<and> grad_enabled s'"
  by (simp add: test_def toy_batches Let_def fetch_def toy_model_def toy_loss_def
      to_def count_correct_def argmax_def len_dataset_def)
    (simp add: toy_test_loader_def)

lemma toy_epoch_loop_total:
  "grad_enabled s \<Longrightarrow>
     \<exists>s'. epoch_loop toy_backward toy_model Cpu toy_loss toy_train_loader toy_test_loader toy_optimizer es s = Returns s'
       \<and> grad_enabled s'"
proof (induction es arbitrary: s)
  case Nil
  then show ?case by simp
next
  case (Cons e es)
  from toy_train_total [OF Cons.prems] obtain s1 where
    s1: "train toy_backward toy_model Cpu toy_loss toy_train_loader toy_optimizer e s = Returns s1" "grad_enabled s1"
    by blast
  from toy_test_total [OF s1(2)] obtain s2 where
    s2: "test toy_model Cpu toy_loss toy_test_loader s1 = Returns s2" "grad_enabled s2"
    by blast
  from Cons.IH [OF s2(2)] s1 s2 show ?case by simp
qed

lemma toy_main_run_total:
  "\<exists>s'. main_run toy_summary toy_backward toy_model Cpu toy_loss toy_train_loader toy_test_loader
           toy_optimizer toy_state = Returns s'"
proof -
  let ?s0 = "toy_state\<lparr>trace := trace (toy_state\<lparr>trace := trace toy_state @ [Start_run]\<rparr>) @
                  [Log_params (hyperparameters toy_loss),
                   Write_file ''model_summary.txt'' (toy_summary (params (toy_state\<lparr>trace := trace toy_state @ [Start_run]\<rparr>))),
                   Log_artifact ''model_summary.txt'']\<rparr>"
  have g: "grad_enabled ?s0" by (simp add: toy_state_def)
  from toy_epoch_loop_total [OF g, of "[1..epochs]"] obtain s10 where
    s10: "epoch_loop toy_backward toy_model Cpu toy_loss toy_train_loader toy_test_loader toy_optimizer [1..epochs] ?s0 = Returns s10"
      "grad_enabled s10" by blast
  from toy_test_total [OF s10(2)] obtain sf where
    "test toy_model Cpu toy_loss toy_test_loader s10 = Returns sf" by blast
  with s10 show ?thesis
    by (simp add: main_run_def run_body_def Let_def)
qed

text \<open>The toy run completes and leaves 11 summary lines.\<close>

theorem main_run_epochs_witness:
  "\<exists>s' evs. main_run toy_summary toy_backward toy_model Cpu toy_loss toy_train_loader toy_test_loader
           toy_optimizer toy_state = Returns s'
      \<and> trace s' = trace toy_state @ evs \<and> length (summaries evs) = 11"
proof -
  from toy_main_run_total obtain s' where
    run: "main_run toy_summary toy_backward toy_model Cpu toy_loss toy_train_loader toy_test_loader
           toy_optimizer toy_state = Returns s'"
    by blast
  from main_run_epochs [OF run] run show ?thesis by blast
qed

section \<open>Properties of the model\<close>









end
